theory Spec2Isabelle
  imports Main "HOL-Library.AList" "HOL-Library.Sublist"
begin

section \<open>Document Coordinator: data model\<close>

text \<open>
  The coordination types of the queue processor (\<^verbatim>\<open>types.ts\<close>). Timestamps are
  \<^verbatim>\<open>Date.now()\<close> values: integral milliseconds, modelled as \<open>int\<close>. The optional
  \<^verbatim>\<open>metadata\<close> members are never read or written by the coordinator and are left out.
\<close>

datatype LockType = lock_processing | lock_updating | lock_deleting

record DocumentLock =
  documentId :: string
  lockId :: string
  lockType :: LockType
  acquiredAt :: int
  expiresAt :: int
  workerId :: string

datatype Status = queued | processing | completed | failed | cancelled

record Progress =
  currentStep :: string
  stepsCompleted :: int
  totalSteps :: int
  percentage :: int

text \<open>
  A \<^verbatim>\<open>ProcessingState\<close> travels as JSON: the body of \<^verbatim>\<open>update-state\<close> is a partial
  object, and the stored value is whatever the spread of such objects produced. Every member
  is therefore optional here: \<open>None\<close> is an absent property.
\<close>

record ProcessingState =
  st_documentId :: "string option"
  status :: "Status option"
  progress :: "Progress option"
  startedAt :: "int option"
  lastUpdatedAt :: "int option"
  completedAt :: "int option"
  error :: "string option"

datatype DedupAction = skip | update | create_new

record DeduplicationResult =
  isDuplicate :: bool
  existingDocumentId :: "string option"
  contentHash :: string
  action :: DedupAction
  reason :: "string option"

section \<open>Durable Object storage\<close>

text \<open>
  \<^verbatim>\<open>this.state.storage\<close> is a key-value store with string keys. It is an association list
  here, because \<^verbatim>\<open>handleCleanup\<close> enumerates it with \<^verbatim>\<open>list()\<close>. The coordinator stores
  three kinds of values: locks under \<^verbatim>\<open>lock:<documentId>\<close>, states under
  \<^verbatim>\<open>state:<documentId>\<close> and document ids (strings) under \<^verbatim>\<open>hash:<contentHash>\<close>.
\<close>

datatype stored = LockV DocumentLock | StateV ProcessingState | StrV string

type_synonym storage = "(string \<times> stored) list"

definition storage_get :: "storage \<Rightarrow> string \<Rightarrow> stored option" where
  "storage_get s key = map_of s key"

definition storage_put :: "string \<Rightarrow> stored \<Rightarrow> storage \<Rightarrow> storage" where
  "storage_put key v s = AList.update key v s"

definition storage_delete :: "string \<Rightarrow> storage \<Rightarrow> storage" where
  "storage_delete key s = AList.delete key s"

definition lockKey :: "string \<Rightarrow> string" where
  "lockKey docId = ''lock:'' @ docId"

definition hashKey :: "string \<Rightarrow> string" where
  "hashKey h = ''hash:'' @ h"

text \<open>
  \<^verbatim>\<open>`state:${stateUpdate.documentId}`\<close>: a template literal prints an absent property as
  \<^verbatim>\<open>undefined\<close>.
\<close>

definition stateKey :: "string option \<Rightarrow> string" where
  "stateKey docId = ''state:'' @ (case docId of Some d \<Rightarrow> d | None \<Rightarrow> ''undefined'')"

section \<open>Document Coordinator: operations\<close>

text \<open>
  Each handler takes the storage and returns its response with the storage it leaves. The
  parameter \<open>now\<close> is the value of \<^verbatim>\<open>Date.now()\<close>: the Workers runtime advances the
  clock only across I/O, so all reads between the \<^verbatim>\<open>storage.get\<close> and the
  \<^verbatim>\<open>storage.put\<close> of one handler return the same instant. \<open>uuid\<close> is the value of
  \<^verbatim>\<open>crypto.randomUUID()\<close>.
\<close>

datatype LockAction = extended | acquired

datatype AcquireLockResponse =
    LockGranted DocumentLock LockAction
  | LockConflict string LockType int

text \<open>
  \<^verbatim>\<open>LockGranted lock action\<close> is the 200 response \<^verbatim>\<open>{success: true, lock, action}\<close>;
  \<^verbatim>\<open>LockConflict workerId lockType expiresAt\<close> is the 409 response with
  \<^verbatim>\<open>existingLock: {workerId, lockType, expiresAt}\<close>.
  \<^verbatim>\<open>ttlSeconds\<close> defaults to 300 when the body does not carry it.

  A value under the lock key that is not a lock (lemma \<open>reachable_lock_key\<close> excludes it) has no
  \<^verbatim>\<open>expiresAt\<close>, so \<^verbatim>\<open>existingLock.expiresAt > Date.now()\<close> is false and the handler falls
  through to the acquisition, as for an absent record.
\<close>

definition ttlSecondsOf :: "int option \<Rightarrow> int" where
  "ttlSecondsOf ttlOpt = (case ttlOpt of Some t \<Rightarrow> t | None \<Rightarrow> 300)"

definition handleAcquireLock ::
  "int \<Rightarrow> string \<Rightarrow> string \<Rightarrow> LockType \<Rightarrow> int option \<Rightarrow> string \<Rightarrow> storage
    \<Rightarrow> AcquireLockResponse \<times> storage" where
  "handleAcquireLock now uuid docId ltype ttlOpt wid s =
    (let ttlSeconds = ttlSecondsOf ttlOpt;
         newLock = \<lparr> documentId = docId, lockId = uuid, lockType = ltype,
                     acquiredAt = now, expiresAt = now + ttlSeconds * 1000,
                     workerId = wid \<rparr>;
         acquire = (LockGranted newLock acquired, storage_put (lockKey docId) (LockV newLock) s)
     in case storage_get s (lockKey docId) of
          Some (LockV existingLock) \<Rightarrow>
            if expiresAt existingLock > now then
              if workerId existingLock = wid then
                (let updatedLock = existingLock \<lparr> expiresAt := now + ttlSeconds * 1000 \<rparr>
                 in (LockGranted updatedLock extended,
                     storage_put (lockKey docId) (LockV updatedLock) s))
              else
                (LockConflict (workerId existingLock) (lockType existingLock)
                   (expiresAt existingLock), s)
            else acquire
        | _ \<Rightarrow> acquire)"

datatype ReleaseLockResponse = ReleaseOk | ReleaseNotFound | ReleaseForbidden

text \<open>
  200, 404 and 403. For a value under the lock key that is not a lock: the empty string is
  falsy (404); anything else has no \<^verbatim>\<open>lockId\<close>, which differs from the caller's (403).
\<close>

definition handleReleaseLock ::
  "string \<Rightarrow> string \<Rightarrow> string \<Rightarrow> storage \<Rightarrow> ReleaseLockResponse \<times> storage" where
  "handleReleaseLock docId lid wid s =
    (case storage_get s (lockKey docId) of
       None \<Rightarrow> (ReleaseNotFound, s)
     | Some (LockV existingLock) \<Rightarrow>
         if lockId existingLock \<noteq> lid \<or> workerId existingLock \<noteq> wid
         then (ReleaseForbidden, s)
         else (ReleaseOk, storage_delete (lockKey docId) s)
     | Some (StrV v) \<Rightarrow> if v = [] then (ReleaseNotFound, s) else (ReleaseForbidden, s)
     | Some (StateV v) \<Rightarrow> (ReleaseForbidden, s))"

text \<open>\<^verbatim>\<open>check-lock\<close>: \<open>None\<close> is \<^verbatim>\<open>{locked: false}\<close>.\<close>

definition handleCheckLock :: "int \<Rightarrow> string \<Rightarrow> storage \<Rightarrow> DocumentLock option" where
  "handleCheckLock now docId s =
    (case storage_get s (lockKey docId) of
       Some (LockV existingLock) \<Rightarrow>
         if expiresAt existingLock \<le> now then None else Some existingLock
     | _ \<Rightarrow> None)"

text \<open>
  The object spread \<^verbatim>\<open>{...a, ...b}\<close>: every property present in \<open>b\<close> overrides the one of
  \<open>a\<close>; nested objects (\<^verbatim>\<open>progress\<close>) are replaced whole.
\<close>

definition over :: "'a option \<Rightarrow> 'a option \<Rightarrow> 'a option" where
  "over old new = (case new of Some v \<Rightarrow> Some v | None \<Rightarrow> old)"

definition emptyState :: ProcessingState where
  "emptyState = \<lparr> st_documentId = None, status = None, progress = None, startedAt = None,
                  lastUpdatedAt = None, completedAt = None, error = None \<rparr>"

definition spread :: "ProcessingState \<Rightarrow> ProcessingState \<Rightarrow> ProcessingState" where
  "spread a b =
    \<lparr> st_documentId = over (st_documentId a) (st_documentId b),
      status = over (status a) (status b),
      progress = over (progress a) (progress b),
      startedAt = over (startedAt a) (startedAt b),
      lastUpdatedAt = over (lastUpdatedAt a) (lastUpdatedAt b),
      completedAt = over (completedAt a) (completedAt b),
      error = over (error a) (error b) \<rparr>"

text \<open>
  \<^verbatim>\<open>storage.get<ProcessingState>(stateKey)\<close>. Keys with the prefix \<^verbatim>\<open>state:\<close> hold states
  only (lemma \<open>reachable_state_key\<close>); spreading \<^verbatim>\<open>undefined\<close> adds no property.
\<close>

definition existingStateOf :: "storage \<Rightarrow> string \<Rightarrow> ProcessingState" where
  "existingStateOf s key =
    (case storage_get s key of Some (StateV existingState) \<Rightarrow> existingState | _ \<Rightarrow> emptyState)"

definition handleUpdateState ::
  "int \<Rightarrow> ProcessingState \<Rightarrow> storage \<Rightarrow> ProcessingState \<times> storage" where
  "handleUpdateState now stateUpdate s =
    (let key = stateKey (st_documentId stateUpdate);
         existingState = existingStateOf s key;
         updatedState = (spread existingState stateUpdate) \<lparr> lastUpdatedAt := Some now \<rparr>
     in (updatedState, storage_put key (StateV updatedState) s))"


text \<open>
  \<^verbatim>\<open>existingDocId && existingDocId !== documentId\<close>: the empty string is falsy. Keys with
  the prefix \<^verbatim>\<open>hash:\<close> hold strings only (lemma \<open>reachable_hash_key\<close>).
\<close>

definition handleDeduplication ::
  "string \<Rightarrow> string \<Rightarrow> storage \<Rightarrow> DeduplicationResult \<times> storage" where
  "handleDeduplication docId h s =
    (let create = (\<lparr> isDuplicate = False, existingDocumentId = None, contentHash = h,
                      action = create_new, reason = None \<rparr>,
                   storage_put (hashKey h) (StrV docId) s)
     in case storage_get s (hashKey h) of
          Some (StrV existingDocId) \<Rightarrow>
            if existingDocId \<noteq> [] \<and> existingDocId \<noteq> docId then
              (\<lparr> isDuplicate = True, existingDocumentId = Some existingDocId,
                 contentHash = h, action = skip,
                 reason = Some ''Identical content hash found'' \<rparr>, s)
            else create
        | _ \<Rightarrow> create)"

record CleanupResults =
  expiredLocks :: nat
  oldStates :: nat
  oldHashes :: nat

definition retentionMs :: int where
  "retentionMs = 7 * 24 * 60 * 60 * 1000"

text \<open>
  One iteration of the loop over \<^verbatim>\<open>allKeys.entries()\<close>. A value that lacks the member
  compared (\<^verbatim>\<open>expiresAt\<close>, \<^verbatim>\<open>lastUpdatedAt\<close>) makes the comparison false.
\<close>

definition cleanupStep ::
  "int \<Rightarrow> string \<times> stored \<Rightarrow> storage \<times> CleanupResults \<Rightarrow> storage \<times> CleanupResults" where
  "cleanupStep now entry acc =
    (let key = fst entry; v = snd entry; s = fst acc; res = snd acc
     in if prefix ''lock:'' key then
          (case v of
             LockV lock \<Rightarrow>
               if expiresAt lock \<le> now
               then (storage_delete key s, res \<lparr> expiredLocks := expiredLocks res + 1 \<rparr>)
               else (s, res)
           | _ \<Rightarrow> (s, res))
        else if prefix ''state:'' key then
          (case v of
             StateV state \<Rightarrow>
               (case lastUpdatedAt state of
                  Some t \<Rightarrow>
                    if t < now - retentionMs
                    then (storage_delete key s, res \<lparr> oldStates := oldStates res + 1 \<rparr>)
                    else (s, res)
                | None \<Rightarrow> (s, res))
           | _ \<Rightarrow> (s, res))
        else if prefix ''hash:'' key then
          (s, res \<lparr> oldHashes := oldHashes res + 1 \<rparr>)
        else (s, res))"

definition handleCleanup :: "int \<Rightarrow> storage \<Rightarrow> CleanupResults \<times> storage" where
  "handleCleanup now s =
    (let allKeys = s;
         r = fold (cleanupStep now) allKeys
               (s, \<lparr> expiredLocks = 0, oldStates = 0, oldHashes = 0 \<rparr>)
     in (snd r, fst r))"

section \<open>Coordinator namespace\<close>

text \<open>
  \<^verbatim>\<open>getCoordinator(documentId)\<close> resolves \<^verbatim>\<open>env.DOCUMENT_COORDINATOR.idFromName(documentId)\<close>:
  one coordinator instance, with a storage of its own, per name. The namespace is the map
  from names to storages. \<^verbatim>\<open>checkDeduplication\<close> of the document processor posts
  \<^verbatim>\<open>deduplicate\<close> to the coordinator of the document id.
\<close>

type_synonym namespace = "string \<Rightarrow> storage"

definition getCoordinator :: "namespace \<Rightarrow> string \<Rightarrow> storage" where
  "getCoordinator ns docId = ns docId"

definition checkDeduplication ::
  "string \<Rightarrow> string \<Rightarrow> namespace \<Rightarrow> DeduplicationResult \<times> namespace" where
  "checkDeduplication docId h ns =
    (let coordinator = getCoordinator ns docId;
         r = handleDeduplication docId h coordinator
     in (fst r, ns (docId := snd r)))"

section \<open>Array helpers\<close>

text \<open>
  \<^verbatim>\<open>Array.prototype.slice(start, end)\<close> on integral arguments: a negative index counts from
  the end, and both are clamped to the array.
\<close>

definition sliceIndex :: "int \<Rightarrow> int \<Rightarrow> nat" where
  "sliceIndex len k = nat (if k < 0 then max (len + k) 0 else min k len)"

definition slice :: "int \<Rightarrow> int \<Rightarrow> 'a list \<Rightarrow> 'a list" where
  "slice start end xs =
    (let len = int (length xs); a = sliceIndex len start; b = sliceIndex len end
     in take (b - a) (drop a xs))"

text \<open>What a call does: it returns a value or throws (a promise resolves or rejects).\<close>

datatype 'r outcome = Returns 'r | Throws string

section \<open>Batch Dispatcher: document ingestion\<close>

datatype MessageType =
  document_ingestion | webhook_sync | batch_reprocess | document_update | document_delete

datatype Priority = low | medium | high | critical

record Metadata =
  priority :: Priority
  retryCount :: int
  maxRetries :: int
  correlationId :: string
  source :: string

record 'p QueueMessage =
  msg_type :: MessageType
  payload :: 'p
  metadata :: Metadata

record ErrorInfo =
  code :: string
  message :: string
  retryable :: bool

record ProcessingResult =
  success :: bool
  messageId :: string
  processingTime :: int
  chunksProcessed :: "int option"
  embeddingsGenerated :: "int option"
  result_error :: "ErrorInfo option"

text \<open>The transport's message: \<^verbatim>\<open>{id, body, attempts}\<close> with \<^verbatim>\<open>ack()\<close> and \<^verbatim>\<open>retry()\<close>.\<close>

record 'p Message =
  msg_id :: string
  body :: 'p
  attempts :: int

datatype Disposition = Ack | Retry

record 'e Counts =
  successCount :: nat
  failureCount :: nat
  errors :: "'e list"

record BatchError =
  e_messageId :: string
  e_error :: string
  e_retryable :: bool

record BatchProcessingResult = "BatchError Counts" +
  totalMessages :: nat
  results :: "ProcessingResult list"
  totalProcessingTime :: int

text \<open>
  The loop \<^verbatim>\<open>for (let i = 0; i < batch.messages.length; i += concurrency)\<close> with
  \<^verbatim>\<open>concurrency = Math.min(batch.messages.length, 5)\<close>. The step is 0 only for the empty
  batch, where the loop does not run.
\<close>

function ingestionChunks :: "'a list \<Rightarrow> nat \<Rightarrow> 'a list list" where
  "ingestionChunks messages i =
    (let concurrency = min (length messages) 5
     in if i < length messages
        then slice (int i) (int i + int concurrency) messages
               # ingestionChunks messages (i + concurrency)
        else [])"
  by pat_completeness auto
termination
  by (relation "measure (\<lambda>(messages, i). length messages - i)") auto

declare ingestionChunks.simps [simp del]

text \<open>
  \<^verbatim>\<open>result.error?.retryable\<close> and \<^verbatim>\<open>result.error?.message || 'Unknown error'\<close>.
\<close>

definition errorRetryable :: "ProcessingResult \<Rightarrow> bool" where
  "errorRetryable result = (case result_error result of Some e \<Rightarrow> retryable e | None \<Rightarrow> False)"

definition errorMessageOf :: "ProcessingResult \<Rightarrow> string" where
  "errorMessageOf result =
    (case result_error result of
       Some e \<Rightarrow> if message e \<noteq> [] then message e else ''Unknown error''
     | None \<Rightarrow> ''Unknown error'')"

text \<open>
  The conversion of the transport's message into the \<^verbatim>\<open>QueueMessage\<close> handed to the
  processor.
\<close>

definition ingestionEnvelope :: "'p Message \<Rightarrow> 'p QueueMessage" where
  "ingestionEnvelope msg =
    \<lparr> msg_type = document_ingestion, payload = body msg,
      metadata = \<lparr> priority = medium, retryCount = attempts msg, maxRetries = 3,
                   correlationId = msg_id msg, source = ''queue-processor'' \<rparr> \<rparr>"

text \<open>
  The body of the callback mapped over a chunk. \<open>processDocumentIngestion\<close> is the
  processor: it acts on the world \<open>w\<close> (coordinators, stores, index) and returns a result or
  throws. The accumulator holds the world, the \<^verbatim>\<open>results\<close> object and the log of the
  \<^verbatim>\<open>ack()\<close> and \<^verbatim>\<open>retry()\<close> calls made so far.
\<close>

definition ingestMessage ::
  "('w \<Rightarrow> 'p QueueMessage \<Rightarrow> ProcessingResult outcome \<times> 'w) \<Rightarrow> 'p Message
    \<Rightarrow> 'w \<times> BatchProcessingResult \<times> ('p Message \<times> Disposition) list
    \<Rightarrow> 'w \<times> BatchProcessingResult \<times> ('p Message \<times> Disposition) list" where
  "ingestMessage processDocumentIngestion msg acc =
    (let w = fst acc; res = fst (snd acc); calls = snd (snd acc);
         queueMessage = ingestionEnvelope msg
     in case processDocumentIngestion w queueMessage of
          (Returns result, w') \<Rightarrow>
            (let res1 = res \<lparr> results := results res @ [result] \<rparr>
             in if success result then
                  (w', res1 \<lparr> successCount := successCount res1 + 1 \<rparr>, calls @ [(msg, Ack)])
                else
                  (let res2 = res1 \<lparr> failureCount := failureCount res1 + 1,
                         errors := errors res1 @
                           [\<lparr> e_messageId = messageId result,
                              e_error = errorMessageOf result,
                              e_retryable = errorRetryable result \<rparr>] \<rparr>
                   in if errorRetryable result
                      then (w', res2, calls @ [(msg, Retry)])
                      else (w', res2, calls @ [(msg, Ack)])))
        | (Throws errorMessage, w') \<Rightarrow>
            (w', res \<lparr> failureCount := failureCount res + 1,
                   errors := errors res @
                     [\<lparr> e_messageId = (if msg_id msg \<noteq> [] then msg_id msg else ''unknown''),
                        e_error = errorMessage, e_retryable = True \<rparr>] \<rparr>,
             calls @ [(msg, Retry)]))"

text \<open>
  The chunks run one after the other (\<^verbatim>\<open>await Promise.all\<close> per chunk). Inside a chunk the
  callbacks run concurrently; each one touches the counters and disposes of its own message
  only, and the model runs them in the order of the chunk.
\<close>

definition handleDocumentIngestion ::
  "('w \<Rightarrow> 'p QueueMessage \<Rightarrow> ProcessingResult outcome \<times> 'w) \<Rightarrow> int \<Rightarrow> int
    \<Rightarrow> 'p Message list \<Rightarrow> 'w
    \<Rightarrow> 'w \<times> BatchProcessingResult \<times> ('p Message \<times> Disposition) list" where
  "handleDocumentIngestion processDocumentIngestion startTime endTime messages w =
    (let res0 = \<lparr> successCount = 0, failureCount = 0, errors = [],
                   totalMessages = length messages, results = [],
                   totalProcessingTime = 0 \<rparr>;
         chunks = ingestionChunks messages 0;
         r = fold (\<lambda>chunk acc. fold (ingestMessage processDocumentIngestion) chunk acc)
               chunks (w, res0, [])
     in (fst r, (fst (snd r)) \<lparr> totalProcessingTime := endTime - startTime \<rparr>, snd (snd r)))"

section \<open>Batch Reprocess Processor\<close>

record DocResult =
  doc_documentId :: string
  doc_success :: bool
  doc_error :: "string option"

record DocError =
  de_documentId :: string
  de_error :: "string option"

text \<open>
  The four reason-specific handlers call the external collaborators; each returns
  \<^verbatim>\<open>{documentId, success: true}\<close> or throws.
\<close>

record 'w Handlers =
  handleSchemaChange :: "'w \<Rightarrow> string \<Rightarrow> unit outcome \<times> 'w"
  handleModelUpdate :: "'w \<Rightarrow> string \<Rightarrow> unit outcome \<times> 'w"
  handlePolicyChange :: "'w \<Rightarrow> string \<Rightarrow> unit outcome \<times> 'w"
  handleManualReindex :: "'w \<Rightarrow> string \<Rightarrow> unit outcome \<times> 'w"

definition caught :: "string \<Rightarrow> unit outcome \<times> 'w \<Rightarrow> DocResult \<times> 'w" where
  "caught docId r =
    (case fst r of
       Returns u \<Rightarrow> (\<lparr> doc_documentId = docId, doc_success = True, doc_error = None \<rparr>, snd r)
     | Throws msg \<Rightarrow>
         (\<lparr> doc_documentId = docId, doc_success = False, doc_error = Some msg \<rparr>, snd r))"

definition processDocument ::
  "'w Handlers \<Rightarrow> string \<Rightarrow> 'w \<Rightarrow> string \<Rightarrow> DocResult \<times> 'w" where
  "processDocument H rsn w docId =
    (if rsn = ''schema_change'' then caught docId (handleSchemaChange H w docId)
     else if rsn = ''model_update'' then caught docId (handleModelUpdate H w docId)
     else if rsn = ''policy_change'' then caught docId (handlePolicyChange H w docId)
     else if rsn = ''manual_reindex'' then caught docId (handleManualReindex H w docId)
     else caught docId (Throws (''Unknown reprocessing reason: '' @ rsn), w))"

text \<open>
  \<^verbatim>\<open>batch.map(...)\<close> followed by \<^verbatim>\<open>Promise.all\<close>: the results in the order of the batch.
  \<^verbatim>\<open>processDocument\<close> catches everything itself, so the \<^verbatim>\<open>.catch\<close> on its promise
  never fires.
\<close>

fun mapBatch :: "('w \<Rightarrow> 'a \<Rightarrow> 'b \<times> 'w) \<Rightarrow> 'w \<Rightarrow> 'a list \<Rightarrow> 'b list \<times> 'w" where
  "mapBatch f w [] = ([], w)"
| "mapBatch f w (x # xs) =
    (let r = f w x; rs = mapBatch f (snd r) xs in (fst r # fst rs, snd rs))"

definition aggregate :: "DocResult \<Rightarrow> DocError Counts \<Rightarrow> DocError Counts" where
  "aggregate result res =
    (if doc_success result then res \<lparr> successCount := successCount res + 1 \<rparr>
     else res \<lparr> failureCount := failureCount res + 1,
                errors := errors res @
                  [\<lparr> de_documentId = doc_documentId result, de_error = doc_error result \<rparr>] \<rparr>)"

function processBatchLoop ::
  "'w Handlers \<Rightarrow> string \<Rightarrow> string list \<Rightarrow> nat \<Rightarrow> 'w \<times> DocError Counts
    \<Rightarrow> 'w \<times> DocError Counts" where
  "processBatchLoop H rsn documentIds i acc =
    (let batchSize = 5
     in if i < length documentIds then
          (let batch = slice (int i) (int i + int batchSize) documentIds;
               batchResults = mapBatch (processDocument H rsn) (fst acc) batch;
               res = fold aggregate (fst batchResults) (snd acc)
           in processBatchLoop H rsn documentIds (i + batchSize) (snd batchResults, res))
        else acc)"
  by pat_completeness auto
termination
  by (relation "measure (\<lambda>(H, rsn, documentIds, i, acc). length documentIds - i)") auto

declare processBatchLoop.simps [simp del]

definition processBatch ::
  "'w Handlers \<Rightarrow> string \<Rightarrow> string list \<Rightarrow> 'w \<Rightarrow> 'w \<times> DocError Counts" where
  "processBatch H rsn documentIds w =
    processBatchLoop H rsn documentIds 0
      (w, \<lparr> successCount = 0, failureCount = 0, errors = [] \<rparr>)"

text \<open>
  \<^verbatim>\<open>processBatchReprocess\<close>: \<^verbatim>\<open>processBatch\<close> does not throw, so the result is the one of
  the \<^verbatim>\<open>try\<close> block, without an \<^verbatim>\<open>error\<close> member.
\<close>

definition processBatchReprocess ::
  "'w Handlers \<Rightarrow> string \<Rightarrow> string list \<Rightarrow> string \<Rightarrow> int \<Rightarrow> 'w
    \<Rightarrow> ProcessingResult \<times> 'w" where
  "processBatchReprocess H rsn documentIds mid elapsed w =
    (let r = processBatch H rsn documentIds w
     in (\<lparr> success = (failureCount (snd r) = 0), messageId = mid, processingTime = elapsed,
           chunksProcessed = None, embeddingsGenerated = None, result_error = None \<rparr>,
         fst r))"

section \<open>Document Processor: chunking\<close>

text \<open>
  Text is a list of characters; \<^verbatim>\<open>\s\<close> is read on the ASCII white space (tab, line feed,
  vertical tab, form feed, carriage return, space). Nothing below depends on the choice.
\<close>

definition isSpace :: "char \<Rightarrow> bool" where
  "isSpace c = (of_char c \<in> {9, 10, 11, 12, 13, 32 :: nat})"

text \<open>
  \<^verbatim>\<open>text.split(/\s+/)\<close>: the pieces between the maximal runs of white space, with an empty
  piece before a leading run and after a trailing one; the empty text gives one empty piece.
\<close>

function splitWS :: "string \<Rightarrow> string list" where
  "splitWS [] = [[]]"
| "splitWS (c # cs) =
    (if isSpace c then [] # splitWS (dropWhile isSpace cs)
     else (case splitWS cs of w # ws \<Rightarrow> (c # w) # ws | [] \<Rightarrow> [[c]]))"
  by pat_completeness auto
termination
  by (relation "measure length") (auto simp: less_Suc_eq_le length_dropWhile_le)

text \<open>\<^verbatim>\<open>Array.prototype.join(' ')\<close>.\<close>

fun joinSpace :: "string list \<Rightarrow> string" where
  "joinSpace [] = []"
| "joinSpace [w] = w"
| "joinSpace (w # ws) = w @ '' '' @ joinSpace ws"

text \<open>
  The loop of \<^verbatim>\<open>chunkText\<close>, from the index \<open>i\<close> with the chunks pushed so far. The
  payload's \<^verbatim>\<open>chunkSize\<close> and \<^verbatim>\<open>overlap\<close> are taken as integers. The loop need not end
  (\<^verbatim>\<open>chunkSize - overlap\<close> may be 0 or negative): not returning is the value \<open>None\<close>.
\<close>

partial_function (option) chunkLoop ::
  "string list \<Rightarrow> int \<Rightarrow> int \<Rightarrow> int \<Rightarrow> string list \<Rightarrow> string list option" where
  "chunkLoop words chunkSize overlap i chunks =
    (if i < int (length words) then
       (let chunk = joinSpace (slice i (i + chunkSize) words);
            chunks' = chunks @ [chunk]
        in if i + chunkSize \<ge> int (length words) then Some chunks'
           else chunkLoop words chunkSize overlap (i + (chunkSize - overlap)) chunks')
     else Some chunks)"

declare chunkLoop.simps [code]

text \<open>The default parameters \<^verbatim>\<open>chunkSize = 1000\<close> and \<^verbatim>\<open>overlap = 200\<close>.\<close>

definition chunkSizeOf :: "int option \<Rightarrow> int" where
  "chunkSizeOf chunkSizeOpt = (case chunkSizeOpt of Some c \<Rightarrow> c | None \<Rightarrow> 1000)"

definition overlapOf :: "int option \<Rightarrow> int" where
  "overlapOf overlapOpt = (case overlapOpt of Some v \<Rightarrow> v | None \<Rightarrow> 200)"

definition chunkText :: "string \<Rightarrow> int option \<Rightarrow> int option \<Rightarrow> string list option" where
  "chunkText text chunkSizeOpt overlapOpt =
    (let chunkSize = chunkSizeOf chunkSizeOpt;
         overlap = overlapOf overlapOpt;
         words = splitWS text
     in chunkLoop words chunkSize overlap 0 [])"

section \<open>Storage invariant and specification predicates\<close>

text \<open>
  The key discipline: keys are unique, a lock is stored under the lock key of its own
  \<^verbatim>\<open>documentId\<close>, a state under a \<^verbatim>\<open>state:\<close> key and a string under a
  \<^verbatim>\<open>hash:\<close> key. \<open>reachable\<close> are the storages a coordinator can hold: it starts
  empty and is changed by its handlers only.
\<close>

definition okEntry :: "string \<times> stored \<Rightarrow> bool" where
  "okEntry e =
    (case snd e of
       LockV l \<Rightarrow> fst e = lockKey (documentId l)
     | StateV st \<Rightarrow> prefix ''state:'' (fst e)
     | StrV h \<Rightarrow> prefix ''hash:'' (fst e))"

definition keyDiscipline :: "storage \<Rightarrow> bool" where
  "keyDiscipline s = (distinct (map fst s) \<and> list_all okEntry s)"

inductive reachable :: "storage \<Rightarrow> bool" where
  r_init: "reachable []"
| r_acquire: "reachable s \<Longrightarrow> reachable (snd (handleAcquireLock now uuid d lt ttl wid s))"
| r_release: "reachable s \<Longrightarrow> reachable (snd (handleReleaseLock d lid wid s))"
| r_update: "reachable s \<Longrightarrow> reachable (snd (handleUpdateState now u s))"
| r_dedup: "reachable s \<Longrightarrow> reachable (snd (handleDeduplication d h s))"
| r_cleanup: "reachable s \<Longrightarrow> reachable (snd (handleCleanup now s))"


text \<open>
  What \<^verbatim>\<open>cleanup\<close> removes. \<open>doomed\<close> is the test the loop makes, on the prefix of the
  key and then on the value; \<open>expiredRecord\<close> is the specification's, on the record alone:
  a lock with \<^verbatim>\<open>expiresAt \<le> now\<close>, or a state last updated more than seven days before
  \<open>now\<close>. \<open>cleanupCount\<close> are the counters after the entries \<open>ys\<close>.
\<close>

definition doomed :: "int \<Rightarrow> string \<times> stored \<Rightarrow> bool" where
  "doomed now e =
    (if prefix ''lock:'' (fst e) then
       (case snd e of LockV l \<Rightarrow> expiresAt l \<le> now | _ \<Rightarrow> False)
     else if prefix ''state:'' (fst e) then
       (case snd e of
          StateV st \<Rightarrow> (case lastUpdatedAt st of Some t \<Rightarrow> t < now - retentionMs | None \<Rightarrow> False)
        | _ \<Rightarrow> False)
     else False)"

definition expiredRecord :: "int \<Rightarrow> stored \<Rightarrow> bool" where
  "expiredRecord now v =
    (case v of
       LockV l \<Rightarrow> expiresAt l \<le> now
     | StateV st \<Rightarrow> (case lastUpdatedAt st of Some t \<Rightarrow> t < now - retentionMs | None \<Rightarrow> False)
     | StrV h \<Rightarrow> False)"

definition isExpiredLock :: "int \<Rightarrow> stored \<Rightarrow> bool" where
  "isExpiredLock now v = (case v of LockV l \<Rightarrow> expiresAt l \<le> now | _ \<Rightarrow> False)"

definition isOldState :: "int \<Rightarrow> stored \<Rightarrow> bool" where
  "isOldState now v =
    (case v of
       StateV st \<Rightarrow> (case lastUpdatedAt st of Some t \<Rightarrow> t < now - retentionMs | None \<Rightarrow> False)
     | _ \<Rightarrow> False)"




text \<open>
  The dispositions as the specification words them, what the processor does on the
  messages of a batch, one after the other from the world \<open>w\<close>, and the numbers of
  \<^verbatim>\<open>ack()\<close> and \<^verbatim>\<open>retry()\<close> calls in a log.
\<close>

definition dispositionOf :: "ProcessingResult outcome \<Rightarrow> Disposition" where
  "dispositionOf out =
    (case out of
       Returns result \<Rightarrow>
         if success result then Ack
         else if (case result_error result of Some e \<Rightarrow> retryable e | None \<Rightarrow> False) then Retry
         else Ack
     | Throws e \<Rightarrow> Retry)"

definition succeeded :: "ProcessingResult outcome \<Rightarrow> bool" where
  "succeeded out = (case out of Returns result \<Rightarrow> success result | Throws e \<Rightarrow> False)"

fun outcomesOf ::
  "('w \<Rightarrow> 'p QueueMessage \<Rightarrow> ProcessingResult outcome \<times> 'w) \<Rightarrow> 'w \<Rightarrow> 'p Message list
    \<Rightarrow> ProcessingResult outcome list" where
  "outcomesOf process w [] = []"
| "outcomesOf process w (m # ms) =
    fst (process w (ingestionEnvelope m))
      # outcomesOf process (snd (process w (ingestionEnvelope m))) ms"

definition acks :: "('m \<times> Disposition) list \<Rightarrow> nat" where
  "acks calls = length (filter (\<lambda>c. snd c = Ack) calls)"

definition retries :: "('m \<times> Disposition) list \<Rightarrow> nat" where
  "retries calls = length (filter (\<lambda>c. snd c = Retry) calls)"

text \<open>
  The entry of \<^verbatim>\<open>results.errors\<close> made for a failed document.
\<close>

definition docErrorOf :: "DocResult \<Rightarrow> DocError" where
  "docErrorOf result = \<lparr> de_documentId = doc_documentId result, de_error = doc_error result \<rparr>"


section \<open>Concrete inputs\<close>











definition resultOf :: "string \<Rightarrow> bool \<Rightarrow> ErrorInfo option \<Rightarrow> ProcessingResult" where
  "resultOf mid ok err =
    \<lparr> success = ok, messageId = mid, processingTime = 1, chunksProcessed = None,
      embeddingsGenerated = None, result_error = err \<rparr>"

definition demoProcess ::
  "unit \<Rightarrow> string QueueMessage \<Rightarrow> ProcessingResult outcome \<times> unit" where
  "demoProcess w q =
    (let mid = correlationId (metadata q)
     in if payload q = ''throw'' then (Throws ''boom'', w)
        else if payload q = ''retryable'' then
          (Returns (resultOf mid False
             (Some \<lparr> code = ''PROCESSING_FAILED'', message = ''timeout'', retryable = True \<rparr>)), w)
        else if payload q = ''fatal'' then
          (Returns (resultOf mid False
             (Some \<lparr> code = ''PROCESSING_FAILED'', message = ''bad'', retryable = False \<rparr>)), w)
        else (Returns (resultOf mid True None), w))"

definition msgOf :: "string \<Rightarrow> string \<Rightarrow> string Message" where
  "msgOf i b = \<lparr> msg_id = i, body = b, attempts = 1 \<rparr>"

definition M10 :: "string Message list" where
  "M10 = [msgOf ''m1'' ''ok'', msgOf ''m2'' ''ok'', msgOf ''m3'' ''throw'', msgOf ''m4'' ''ok'',
          msgOf ''m5'' ''ok'', msgOf ''m6'' ''ok'', msgOf ''m7'' ''ok'', msgOf ''m8'' ''ok'',
          msgOf ''m9'' ''ok'', msgOf ''m10'' ''ok'']"

definition M3 :: "string Message list" where
  "M3 = [msgOf ''a'' ''ok'', msgOf ''b'' ''retryable'', msgOf ''c'' ''fatal'']"

definition demoHandlers :: "unit Handlers" where
  "demoHandlers =
    \<lparr> handleSchemaChange = (\<lambda>w d. (Returns (), w)),
      handleModelUpdate =
        (\<lambda>w d. if d \<in> {''d1'', ''d2'', ''d3''} then (Throws ''503'', w) else (Returns (), w)),
      handlePolicyChange = (\<lambda>w d. (Returns (), w)),
      handleManualReindex = (\<lambda>w d. (Returns (), w)) \<rparr>"

definition D6 :: "string list" where
  "D6 = [''d1'', ''d2'', ''d3'', ''d4'', ''d5'', ''d6'']"

section \<open>Storage lemmas\<close>


lemma storage_get_put:
  "storage_get (storage_put k v s) k' = (if k' = k then Some v else storage_get s k')"
  by (simp add: storage_get_def storage_put_def update_conv')


lemma set_update_subset: "set (AList.update k v s) \<subseteq> insert (k, v) (set s)"
  by (induction s) auto

lemma keyDiscipline_put:
  assumes "keyDiscipline s" and "okEntry (k, v)"
  shows "keyDiscipline (storage_put k v s)"
proof -
  have "distinct (map fst (AList.update k v s))"
    using assms(1) by (simp add: keyDiscipline_def distinct_update)
  moreover have "\<forall>e \<in> set (AList.update k v s). okEntry e"
    using assms set_update_subset [of k v s]
    by (auto simp: keyDiscipline_def list_all_iff)
  ultimately show ?thesis
    by (simp add: keyDiscipline_def storage_put_def list_all_iff)
qed

lemma keyDiscipline_filter: "keyDiscipline s \<Longrightarrow> keyDiscipline (filter P s)"
  by (auto simp: keyDiscipline_def distinct_map_filter list_all_iff)

lemma storage_delete_filter: "storage_delete k s = filter (\<lambda>p. fst p \<noteq> k) s"
  by (auto simp: storage_delete_def AList.delete_eq case_prod_beta intro: filter_cong)

lemma keyDiscipline_get:
  "keyDiscipline s \<Longrightarrow> storage_get s k = Some v \<Longrightarrow> okEntry (k, v)"
  by (auto simp: keyDiscipline_def storage_get_def list_all_iff dest: map_of_SomeD)




section \<open>Cleanup: what the loop leaves\<close>

lemma cleanupStep_fst:
  "fst (cleanupStep now e (t, r)) = (if doomed now e then storage_delete (fst e) t else t)"
  by (simp add: cleanupStep_def doomed_def Let_def split: stored.splits option.splits)

lemma fold_cleanup_fst:
  "fst (fold (cleanupStep now) ys (t, r))
     = filter (\<lambda>p. fst p \<notin> fst ` {e \<in> set ys. doomed now e}) t"
proof (induction ys arbitrary: t r)
  case Nil
  then show ?case by simp
next
  case (Cons y ys)
  obtain t' r' where step: "cleanupStep now y (t, r) = (t', r')"
    by (cases "cleanupStep now y (t, r)")
  have t': "t' = (if doomed now y then storage_delete (fst y) t else t)"
    using cleanupStep_fst [of now y t r] step by simp
  have "fst (fold (cleanupStep now) (y # ys) (t, r))
          = filter (\<lambda>p. fst p \<notin> fst ` {e \<in> set ys. doomed now e}) t'"
    using Cons.IH [of t' r'] step by simp
  also have "\<dots> = filter (\<lambda>p. fst p \<notin> fst ` {e \<in> set (y # ys). doomed now e}) t"
    unfolding t' by (auto simp: storage_delete_filter intro!: filter_cong)
  finally show ?case .
qed

lemma cleanup_storage:
  assumes "distinct (map fst s)"
  shows "snd (handleCleanup now s) = filter (\<lambda>p. \<not> doomed now p) s"
proof -
  have "p \<in> set s \<Longrightarrow> (fst p \<in> fst ` {e \<in> set s. doomed now e}) = doomed now p" for p
  proof
    assume p: "p \<in> set s" and "fst p \<in> fst ` {e \<in> set s. doomed now e}"
    then obtain e where e: "e \<in> set s" "doomed now e" "fst e = fst p" by auto
    have "e = p"
      using eq_key_imp_eq_value [OF assms, of "fst p" "snd e" "snd p"] e p
      by (metis prod.collapse)
    with e show "doomed now p" by simp
  next
    assume "p \<in> set s" and "doomed now p"
    then show "fst p \<in> fst ` {e \<in> set s. doomed now e}" by auto
  qed
  then show ?thesis
    by (auto simp: handleCleanup_def Let_def fold_cleanup_fst intro!: filter_cong)
qed


lemma keyDiscipline_cleanup: "keyDiscipline s \<Longrightarrow> keyDiscipline (snd (handleCleanup now s))"
  using keyDiscipline_filter [of s "\<lambda>p. \<not> doomed now p"]
  by (simp add: cleanup_storage keyDiscipline_def)

lemma expiredRecord_alt: "expiredRecord now v = (isExpiredLock now v \<or> isOldState now v)"
  by (simp add: expiredRecord_def isExpiredLock_def isOldState_def split: stored.splits)






section \<open>The key discipline is invariant\<close>

lemma keyDiscipline_reachable: "reachable s \<Longrightarrow> keyDiscipline s"
proof (induction rule: reachable.induct)
  case r_init
  then show ?case by (simp add: keyDiscipline_def)
next
  case (r_acquire s now uuid d lt ttl wid)
  have new: "okEntry (lockKey d, LockV \<lparr> documentId = d, lockId = uuid, lockType = lt,
      acquiredAt = now, expiresAt = e, workerId = wid \<rparr>)" for e
    by (simp add: okEntry_def)
  have ext: "okEntry (lockKey d, LockV (l \<lparr> expiresAt := e \<rparr>))"
    if "storage_get s (lockKey d) = Some (LockV l)" for l e
    using keyDiscipline_get [OF r_acquire.IH that] by (simp add: okEntry_def)
  show ?case
    using r_acquire.IH new ext
    by (auto simp: handleAcquireLock_def Let_def intro!: keyDiscipline_put
             split: option.splits stored.splits)
next
  case (r_release s d lid wid)
  then show ?case
    by (auto simp: handleReleaseLock_def storage_delete_filter keyDiscipline_filter
             split: option.splits stored.splits)
next
  case (r_update s now u)
  then show ?case
    by (auto simp: handleUpdateState_def Let_def okEntry_def stateKey_def
             intro!: keyDiscipline_put)
next
  case (r_dedup s d h)
  then show ?case
    by (auto simp: handleDeduplication_def Let_def okEntry_def hashKey_def
             intro!: keyDiscipline_put split: option.splits stored.splits)
next
  case (r_cleanup s now)
  then show ?case by (simp add: keyDiscipline_cleanup)
qed




lemma reachable_state_key:
  assumes "reachable s"
  shows "storage_get s (stateKey d) = None \<or> (\<exists>st. storage_get s (stateKey d) = Some (StateV st))"
proof (cases "storage_get s (stateKey d)")
  case None
  then show ?thesis by simp
next
  case (Some v)
  have "okEntry (stateKey d, v)"
    using keyDiscipline_get [OF keyDiscipline_reachable [OF assms] Some] .
  then show ?thesis
    using Some by (cases v) (auto simp: okEntry_def lockKey_def stateKey_def prefix_def)
qed

lemma reachable_hash_key:
  assumes "reachable s"
  shows "storage_get s (hashKey h) = None \<or> (\<exists>d. storage_get s (hashKey h) = Some (StrV d))"
proof (cases "storage_get s (hashKey h)")
  case None
  then show ?thesis by simp
next
  case (Some v)
  have "okEntry (hashKey h, v)"
    using keyDiscipline_get [OF keyDiscipline_reachable [OF assms] Some] .
  then show ?thesis
    using Some by (cases v) (auto simp: okEntry_def lockKey_def hashKey_def prefix_def)
qed

section \<open>Locks\<close>







section \<open>Cleanup\<close>



section \<open>Processing state\<close>






lemma updateState_storage:
  "snd (handleUpdateState now u s)
     = storage_put (stateKey (st_documentId u)) (StateV (fst (handleUpdateState now u s))) s"
  by (simp add: handleUpdateState_def Let_def)

text \<open>
  The record updated is the one under the key of the update's own \<^verbatim>\<open>documentId\<close>; an
  update without that member goes to the key \<^verbatim>\<open>state:undefined\<close>.
\<close>

lemma updateState_without_documentId:
  "st_documentId u = None \<Longrightarrow>
     snd (handleUpdateState now u s)
       = storage_put ''state:undefined'' (StateV (fst (handleUpdateState now u s))) s"
  by (simp add: updateState_storage stateKey_def)






section \<open>Deduplication\<close>

lemma dedup_single_coordinator:
  assumes "d1 \<noteq> d2" and "d1 \<noteq> []" and "storage_get s (hashKey h) = None"
  shows "fst (handleDeduplication d2 h (snd (handleDeduplication d1 h s)))
           = \<lparr> isDuplicate = True, existingDocumentId = Some d1, contentHash = h,
               action = skip, reason = Some ''Identical content hash found'' \<rparr>
       \<and> storage_get (snd (handleDeduplication d2 h (snd (handleDeduplication d1 h s))))
           (hashKey h) = Some (StrV d1)"
  using assms by (simp add: handleDeduplication_def Let_def storage_get_put)

lemma dedup_routed_never_duplicate:
  assumes "d1 \<noteq> d2" and "storage_get (getCoordinator ns d2) (hashKey h) = None"
  shows "isDuplicate (fst (checkDeduplication d2 h (snd (checkDeduplication d1 h ns)))) = False"
  using assms
  by (simp add: checkDeduplication_def getCoordinator_def handleDeduplication_def Let_def)

text \<open>
  Claim C2 on the code: the document processor sends each \<^verbatim>\<open>deduplicate\<close> call to the
  coordinator named after the document id, so the two documents \<open>doc-1\<close> and \<open>doc-2\<close>
  consult two storages. Starting from empty coordinators, the second call for the hash
  \<open>abc\<close> is answered \<^verbatim>\<open>isDuplicate: false\<close>, \<^verbatim>\<open>create_new\<close>, and the coordinator of
  \<open>doc-2\<close> records \<open>doc-2\<close> as the owner of the hash while the coordinator of \<open>doc-1\<close>
  records \<open>doc-1\<close>.
\<close>

theorem C2_dedup_routed_per_document:
  "fst (checkDeduplication ''doc-2'' ''abc'' (snd (checkDeduplication ''doc-1'' ''abc'' (\<lambda>n. []))))
     = \<lparr> isDuplicate = False, existingDocumentId = None, contentHash = ''abc'',
         action = create_new, reason = None \<rparr>
   \<and> snd (checkDeduplication ''doc-2'' ''abc'' (snd (checkDeduplication ''doc-1'' ''abc'' (\<lambda>n. []))))
        ''doc-2'' = [(''hash:abc'', StrV ''doc-2'')]
   \<and> snd (checkDeduplication ''doc-2'' ''abc'' (snd (checkDeduplication ''doc-1'' ''abc'' (\<lambda>n. []))))
        ''doc-1'' = [(''hash:abc'', StrV ''doc-1'')]"
  by (simp add: checkDeduplication_def getCoordinator_def handleDeduplication_def Let_def
        storage_get_def storage_put_def hashKey_def)

section \<open>Batch dispatch\<close>

lemma sliceIndex_nat: "sliceIndex (int n) (int k) = min k n"
  by (simp add: sliceIndex_def min_def)

lemma slice_take_drop: "slice (int i) (int i + int c) xs = take c (drop i xs)"
proof -
  have "slice (int i) (int (i + c)) xs
          = take (min (i + c) (length xs) - min i (length xs)) (drop (min i (length xs)) xs)"
    unfolding slice_def Let_def sliceIndex_nat ..
  also have "\<dots> = take c (drop i xs)"
    by (cases "i \<le> length xs") (simp_all add: min_def)
  finally show ?thesis by simp
qed

lemma concat_ingestionChunks: "concat (ingestionChunks messages i) = drop i messages"
proof (induction messages i rule: ingestionChunks.induct)
  case (1 messages i)
  show ?case
  proof (cases "i < length messages")
    case True
    have "concat (ingestionChunks messages i)
            = take (min (length messages) 5) (drop i messages)
                @ drop (i + min (length messages) 5) messages"
      using True "1.IH" [OF refl True]
      by (subst ingestionChunks.simps) (simp add: Let_def slice_take_drop)
    also have "\<dots> = drop i messages"
      by (metis add.commute append_take_drop_id drop_drop)
    finally show ?thesis .
  next
    case False
    then show ?thesis by (subst ingestionChunks.simps) simp
  qed
qed

lemma chunk_sizes:
  "\<forall>chunk \<in> set (ingestionChunks messages i). length chunk \<le> 5"
proof (induction messages i rule: ingestionChunks.induct)
  case (1 messages i)
  show ?case
  proof (cases "i < length messages")
    case True
    then show ?thesis
      using "1.IH" [OF refl True]
      by (subst ingestionChunks.simps) (simp add: Let_def slice_take_drop)
  next
    case False
    then show ?thesis by (subst ingestionChunks.simps) simp
  qed
qed

lemma ingestMessage_Throws:
  assumes "process w (ingestionEnvelope msg) = (Throws e, w')"
  shows "ingestMessage process msg (w, res, calls)
     = (w', res \<lparr> failureCount := failureCount res + 1,
                  errors := errors res @
                    [\<lparr> e_messageId = (if msg_id msg \<noteq> [] then msg_id msg else ''unknown''),
                       e_error = e, e_retryable = True \<rparr>] \<rparr>,
        calls @ [(msg, Retry)])"
  using assms by (simp add: ingestMessage_def)

lemma ingestMessage_Returns:
  assumes "process w (ingestionEnvelope msg) = (Returns result, w')"
  shows "ingestMessage process msg (w, res, calls)
     = (if success result then
          (w', res \<lparr> results := results res @ [result],
                     successCount := successCount res + 1 \<rparr>, calls @ [(msg, Ack)])
        else
          (w', res \<lparr> results := results res @ [result],
                     failureCount := failureCount res + 1,
                     errors := errors res @
                       [\<lparr> e_messageId = messageId result, e_error = errorMessageOf result,
                          e_retryable = errorRetryable result \<rparr>] \<rparr>,
           calls @ [(msg, if errorRetryable result then Retry else Ack)]))"
  using assms by (simp add: ingestMessage_def Let_def)

lemma ingestMessage_step:
  "ingestMessage process msg (w, res, calls)
     = (snd (process w (ingestionEnvelope msg)),
        fst (snd (ingestMessage process msg (w, res, calls))),
        calls @ [(msg, dispositionOf (fst (process w (ingestionEnvelope msg))))])"
proof (cases "process w (ingestionEnvelope msg)")
  case (Pair out w')
  show ?thesis
  proof (cases out)
    case (Returns result)
    then show ?thesis
      using Pair ingestMessage_Returns [of process w msg result w' res calls]
      by (simp add: dispositionOf_def errorRetryable_def)
  next
    case (Throws e)
    then show ?thesis
      using Pair ingestMessage_Throws [of process w msg e w' res calls]
      by (simp add: dispositionOf_def)
  qed
qed

lemma ingestMessage_counts:
  "successCount (fst (snd (ingestMessage process msg (w, res, calls))))
     = successCount res + (if succeeded (fst (process w (ingestionEnvelope msg))) then 1 else 0)
   \<and> failureCount (fst (snd (ingestMessage process msg (w, res, calls))))
     = failureCount res + (if succeeded (fst (process w (ingestionEnvelope msg))) then 0 else 1)
   \<and> totalMessages (fst (snd (ingestMessage process msg (w, res, calls)))) = totalMessages res"
proof (cases "process w (ingestionEnvelope msg)")
  case (Pair out w')
  show ?thesis
  proof (cases out)
    case (Returns result)
    then show ?thesis
      using Pair ingestMessage_Returns [of process w msg result w' res calls]
      by (simp add: succeeded_def)
  next
    case (Throws e)
    then show ?thesis
      using Pair ingestMessage_Throws [of process w msg e w' res calls]
      by (simp add: succeeded_def)
  qed
qed

lemma fold_ingestMessage:
  "\<exists>w' res'. fold (ingestMessage process) msgs (w, res, calls)
       = (w', res', calls @ zip msgs (map dispositionOf (outcomesOf process w msgs)))
     \<and> successCount res' = successCount res
         + length (filter succeeded (outcomesOf process w msgs))
     \<and> failureCount res' = failureCount res
         + length (filter (\<lambda>out. \<not> succeeded out) (outcomesOf process w msgs))
     \<and> totalMessages res' = totalMessages res"
proof (induction msgs arbitrary: w res calls)
  case Nil
  then show ?case by simp
next
  case (Cons m ms)
  let ?p = "process w (ingestionEnvelope m)"
  let ?res1 = "fst (snd (ingestMessage process m (w, res, calls)))"
  have step: "ingestMessage process m (w, res, calls)
      = (snd ?p, ?res1, calls @ [(m, dispositionOf (fst ?p))])"
    by (rule ingestMessage_step)
  obtain w' res' where
    f: "fold (ingestMessage process) ms (snd ?p, ?res1, calls @ [(m, dispositionOf (fst ?p))])
       = (w', res', (calls @ [(m, dispositionOf (fst ?p))])
            @ zip ms (map dispositionOf (outcomesOf process (snd ?p) ms)))"
    and s: "successCount res' = successCount ?res1
         + length (filter succeeded (outcomesOf process (snd ?p) ms))"
    and fl: "failureCount res' = failureCount ?res1
         + length (filter (\<lambda>out. \<not> succeeded out) (outcomesOf process (snd ?p) ms))"
    and tm: "totalMessages res' = totalMessages ?res1"
    using Cons.IH [of "snd ?p" ?res1 "calls @ [(m, dispositionOf (fst ?p))]"] by blast
  have "fold (ingestMessage process) (m # ms) (w, res, calls)
      = (w', res', calls @ zip (m # ms) (map dispositionOf (outcomesOf process w (m # ms))))"
    using f step by simp
  moreover have "successCount res' = successCount res
         + length (filter succeeded (outcomesOf process w (m # ms)))"
    using s by (simp add: ingestMessage_counts)
  moreover have "failureCount res' = failureCount res
         + length (filter (\<lambda>out. \<not> succeeded out) (outcomesOf process w (m # ms)))"
    using fl by (simp add: ingestMessage_counts)
  moreover have "totalMessages res' = totalMessages res"
    using tm by (simp add: ingestMessage_counts)
  ultimately show ?case by blast
qed

lemma fold_ingestMessage_proj:
  "snd (snd (fold (ingestMessage process) msgs (w, res, calls)))
     = calls @ zip msgs (map dispositionOf (outcomesOf process w msgs))"
  "successCount (fst (snd (fold (ingestMessage process) msgs (w, res, calls))))
     = successCount res + length (filter succeeded (outcomesOf process w msgs))"
  "failureCount (fst (snd (fold (ingestMessage process) msgs (w, res, calls))))
     = failureCount res + length (filter (\<lambda>out. \<not> succeeded out) (outcomesOf process w msgs))"
  "totalMessages (fst (snd (fold (ingestMessage process) msgs (w, res, calls))))
     = totalMessages res"
  using fold_ingestMessage [of process msgs w res calls] by auto

lemma length_outcomesOf: "length (outcomesOf process w msgs) = length msgs"
  by (induction msgs arbitrary: w) simp_all

lemma fold_chunks:
  "fold (\<lambda>chunk acc. fold f chunk acc) chunks acc = fold f (concat chunks) acc"
  by (induction chunks arbitrary: acc) simp_all

lemma filter_snd_zip:
  "length xs = length ys \<Longrightarrow>
     length (filter (\<lambda>c. P (snd c)) (zip xs ys)) = length (filter P ys)"
proof (induction xs arbitrary: ys)
  case Nil
  then show ?case by simp
next
  case (Cons x xs)
  then show ?case by (cases ys) simp_all
qed

lemma disposition_cases: "d \<noteq> Ack \<longleftrightarrow> d = Retry"
  by (cases d) simp_all

lemma one_throw_counts:
  assumes len: "length outs = n" and j: "j < n"
    and thr: "\<exists>e. outs ! j = Throws e"
    and ok: "\<forall>i<n. i \<noteq> j \<longrightarrow> succeeded (outs ! i)"
  shows "length (filter (\<lambda>d. d = Retry) (map dispositionOf outs)) = 1"
    and "length (filter (\<lambda>d. d = Ack) (map dispositionOf outs)) = n - 1"
proof -
  let ?ds = "map dispositionOf outs"
  have at: "?ds ! i = (if i = j then Retry else Ack)" if "i < n" for i
  proof (cases "i = j")
    case True
    then show ?thesis using thr that len by (auto simp: dispositionOf_def)
  next
    case False
    then have "succeeded (outs ! i)" using ok that by simp
    then show ?thesis
      using False that len
      by (auto simp: dispositionOf_def succeeded_def split: outcome.splits)
  qed
  have "{i. i < length ?ds \<and> ?ds ! i = Retry} = {j}"
    using at len j by (auto split: if_splits)
  then show r: "length (filter (\<lambda>d. d = Retry) ?ds) = 1"
    by (simp add: length_filter_conv_card)
  have "length (filter (\<lambda>d. d = Ack) ?ds) + length (filter (\<lambda>d. \<not> d = Ack) ?ds) = length ?ds"
    by (rule sum_length_filter_compl)
  then show "length (filter (\<lambda>d. d = Ack) ?ds) = n - 1"
    using r len by (simp add: disposition_cases)
qed

text \<open>
  Claim C4. For every batch delivered to \<^verbatim>\<open>handleDocumentIngestion\<close>, the \<^verbatim>\<open>ack()\<close> and
  \<^verbatim>\<open>retry()\<close> calls made are one per message, in the order of the batch, each the
  disposition the outcome of the processor on that message calls for: ack on success, retry
  on a retryable failure, ack on a failure that is not retryable, retry when the processor
  throws. The counters satisfy \<^verbatim>\<open>successCount + failureCount = totalMessages\<close>, and acks
  and retries add up to the size of the batch. When the processor throws on exactly one of
  10 messages and succeeds on the others, there are 9 acks and 1 retry.
\<close>

theorem C4_one_disposition_per_message:
  "\<exists>w' res calls.
      handleDocumentIngestion process t0 t1 msgs w = (w', res, calls)
    \<and> calls = zip msgs (map dispositionOf (outcomesOf process w msgs))
    \<and> map fst calls = msgs
    \<and> totalMessages res = length msgs
    \<and> successCount res = length (filter succeeded (outcomesOf process w msgs))
    \<and> failureCount res = length (filter (\<lambda>out. \<not> succeeded out) (outcomesOf process w msgs))
    \<and> successCount res + failureCount res = totalMessages res
    \<and> acks calls + retries calls = length msgs
    \<and> (length msgs = 10 \<and> j < 10 \<and> (\<exists>e. outcomesOf process w msgs ! j = Throws e)
         \<and> (\<forall>i<10. i \<noteq> j \<longrightarrow> succeeded (outcomesOf process w msgs ! i))
        \<longrightarrow> acks calls = 9 \<and> retries calls = 1)"
proof -
  let ?outs = "outcomesOf process w msgs"
  let ?calls = "zip msgs (map dispositionOf ?outs)"
  let ?res0 = "\<lparr> successCount = 0, failureCount = 0, errors = [],
                   totalMessages = length msgs, results = [], totalProcessingTime = 0 \<rparr>"
  have fold_eq: "fold (\<lambda>chunk acc. fold (ingestMessage process) chunk acc)
                   (ingestionChunks msgs 0) (w, ?res0, [])
               = fold (ingestMessage process) msgs (w, ?res0, [])"
    using concat_ingestionChunks [of msgs 0]
    by (simp add: fold_chunks)
  let ?r = "fold (ingestMessage process) msgs (w, ?res0, [])"
  define w' where "w' = fst ?r"
  define res' where "res' = fst (snd ?r)"
  have f: "?r = (w', res', ?calls)"
    using fold_ingestMessage_proj(1) [of process msgs w ?res0 "[]"]
    by (simp add: w'_def res'_def prod_eq_iff)
  have s: "successCount res' = length (filter succeeded ?outs)"
    and fl: "failureCount res' = length (filter (\<lambda>out. \<not> succeeded out) ?outs)"
    and tm: "totalMessages res' = length msgs"
    unfolding res'_def by (simp_all add: fold_ingestMessage_proj)
  let ?res = "res' \<lparr> totalProcessingTime := t1 - t0 \<rparr>"
  have h: "handleDocumentIngestion process t0 t1 msgs w = (w', ?res, ?calls)"
    using f fold_eq by (simp add: handleDocumentIngestion_def Let_def)
  have len: "length ?outs = length msgs" by (rule length_outcomesOf)
  have m: "map fst ?calls = msgs" using len by simp
  have sum: "successCount ?res + failureCount ?res = totalMessages ?res"
    using s fl tm len sum_length_filter_compl [of succeeded ?outs] by simp
  have s2: "successCount ?res = length (filter succeeded ?outs)"
    and fl2: "failureCount ?res = length (filter (\<lambda>out. \<not> succeeded out) ?outs)"
    and tm2: "totalMessages ?res = length msgs"
    using s fl tm by simp_all
  have ak: "acks ?calls = length (filter (\<lambda>d. d = Ack) (map dispositionOf ?outs))"
    unfolding acks_def using filter_snd_zip [of msgs "map dispositionOf ?outs" "\<lambda>d. d = Ack"] len
    by simp
  have rt: "retries ?calls = length (filter (\<lambda>d. d = Retry) (map dispositionOf ?outs))"
    unfolding retries_def
    using filter_snd_zip [of msgs "map dispositionOf ?outs" "\<lambda>d. d = Retry"] len by simp
  have tot: "acks ?calls + retries ?calls = length msgs"
    using sum_length_filter_compl [of "\<lambda>d. d = Ack" "map dispositionOf ?outs"] len
    by (simp add: ak rt disposition_cases)
  have ex: "length msgs = 10 \<and> j < 10 \<and> (\<exists>e. ?outs ! j = Throws e)
         \<and> (\<forall>i<10. i \<noteq> j \<longrightarrow> succeeded (?outs ! i))
        \<longrightarrow> acks ?calls = 9 \<and> retries ?calls = 1"
  proof
    assume a: "length msgs = 10 \<and> j < 10 \<and> (\<exists>e. ?outs ! j = Throws e)
         \<and> (\<forall>i<10. i \<noteq> j \<longrightarrow> succeeded (?outs ! i))"
    then have l10: "length ?outs = 10" using len by simp
    show "acks ?calls = 9 \<and> retries ?calls = 1"
      using one_throw_counts [OF l10, of j] a by (simp add: ak rt)
  qed
  show ?thesis
    using h m s2 fl2 tm2 sum tot ex
    by (intro exI [of _ w'] exI [of _ ?res] exI [of _ ?calls] conjI) (rule refl | assumption)+
qed

theorem C4_one_disposition_per_message_witness:
  "acks (snd (snd (handleDocumentIngestion demoProcess 0 7 M10 ()))) = 9
   \<and> retries (snd (snd (handleDocumentIngestion demoProcess 0 7 M10 ()))) = 1
   \<and> successCount (fst (snd (handleDocumentIngestion demoProcess 0 7 M10 ()))) = 9
   \<and> failureCount (fst (snd (handleDocumentIngestion demoProcess 0 7 M10 ()))) = 1
   \<and> map snd (snd (snd (handleDocumentIngestion demoProcess 0 7 M3 ()))) = [Ack, Retry, Ack]"
proof -
  have o10: "outcomesOf demoProcess () M10
      = [Returns (resultOf ''m1'' True None), Returns (resultOf ''m2'' True None),
         Throws ''boom'', Returns (resultOf ''m4'' True None),
         Returns (resultOf ''m5'' True None), Returns (resultOf ''m6'' True None),
         Returns (resultOf ''m7'' True None), Returns (resultOf ''m8'' True None),
         Returns (resultOf ''m9'' True None), Returns (resultOf ''m10'' True None)]"
    by (simp add: M10_def msgOf_def demoProcess_def ingestionEnvelope_def Let_def)
  have ok: "\<forall>i<10. i \<noteq> 2 \<longrightarrow> succeeded (outcomesOf demoProcess () M10 ! i)"
    unfolding o10 by (simp add: All_less_Suc2 eval_nat_numeral succeeded_def resultOf_def)
  have thr: "\<exists>e. outcomesOf demoProcess () M10 ! 2 = Throws e"
    unfolding o10 by simp
  have l: "length M10 = 10" by (simp add: M10_def)
  have s10: "length (filter succeeded (outcomesOf demoProcess () M10)) = 9"
    unfolding o10 by (simp add: succeeded_def resultOf_def)
  have f10: "length (filter (\<lambda>out. \<not> succeeded out) (outcomesOf demoProcess () M10)) = 1"
    unfolding o10 by (simp add: succeeded_def resultOf_def)
  have o3: "map dispositionOf (outcomesOf demoProcess () M3) = [Ack, Retry, Ack]"
    by (simp add: M3_def msgOf_def demoProcess_def ingestionEnvelope_def Let_def
          dispositionOf_def resultOf_def)
  obtain w' res calls where
    h: "handleDocumentIngestion demoProcess 0 7 M10 () = (w', res, calls)"
    and s: "successCount res = length (filter succeeded (outcomesOf demoProcess () M10))"
    and f: "failureCount res
              = length (filter (\<lambda>out. \<not> succeeded out) (outcomesOf demoProcess () M10))"
    and ex: "length M10 = 10 \<and> (2::nat) < 10
               \<and> (\<exists>e. outcomesOf demoProcess () M10 ! 2 = Throws e)
               \<and> (\<forall>i<10. i \<noteq> 2 \<longrightarrow> succeeded (outcomesOf demoProcess () M10 ! i))
             \<longrightarrow> acks calls = 9 \<and> retries calls = 1"
    using C4_one_disposition_per_message [of demoProcess 0 7 M10 "()" 2] by blast
  obtain w3 res3 calls3 where
    h3: "handleDocumentIngestion demoProcess 0 7 M3 () = (w3, res3, calls3)"
    and c3: "calls3 = zip M3 (map dispositionOf (outcomesOf demoProcess () M3))"
    using C4_one_disposition_per_message [of demoProcess 0 7 M3 "()" 0] by blast
  have "map snd calls3 = [Ack, Retry, Ack]"
    unfolding c3 o3 by (simp add: M3_def)
  moreover have "acks calls = 9 \<and> retries calls = 1"
    using ex l ok thr by simp
  ultimately show ?thesis
    using h h3 s f s10 f10 by simp
qed

section \<open>Batch reprocessing\<close>

lemma slice_five: "slice (int i) (int i + 5) xs = take 5 (drop i xs)"
  using slice_take_drop [of i 5 xs] by simp

lemma mapBatch_append:
  "mapBatch f w (xs @ ys)
     = (fst (mapBatch f w xs) @ fst (mapBatch f (snd (mapBatch f w xs)) ys),
        snd (mapBatch f (snd (mapBatch f w xs)) ys))"
  by (induction xs arbitrary: w) (simp_all add: Let_def)

lemma length_mapBatch: "length (fst (mapBatch f w xs)) = length xs"
  by (induction xs arbitrary: w) (simp_all add: Let_def)

lemma processDocument_id: "doc_documentId (fst (processDocument H rsn w d)) = d"
  by (simp add: processDocument_def caught_def split: outcome.splits)

lemma mapBatch_ids:
  "map doc_documentId (fst (mapBatch (processDocument H rsn) w ids)) = ids"
  by (induction ids arbitrary: w) (simp_all add: Let_def processDocument_id)

lemma fold_aggregate:
  "fold aggregate rs res
     = res \<lparr> successCount := successCount res + length (filter doc_success rs),
             failureCount := failureCount res + length (filter (\<lambda>r. \<not> doc_success r) rs),
             errors := errors res @ map docErrorOf (filter (\<lambda>r. \<not> doc_success r) rs) \<rparr>"
  by (induction rs arbitrary: res) (simp_all add: aggregate_def docErrorOf_def)

lemma processBatchLoop_eq:
  "processBatchLoop H rsn ids i acc
     = (snd (mapBatch (processDocument H rsn) (fst acc) (drop i ids)),
        fold aggregate (fst (mapBatch (processDocument H rsn) (fst acc) (drop i ids))) (snd acc))"
proof (induction H rsn ids i acc rule: processBatchLoop.induct)
  case (1 H rsn ids i acc)
  show ?case
  proof (cases "i < length ids")
    case True
    let ?f = "processDocument H rsn"
    let ?batch = "take 5 (drop i ids)"
    let ?br = "mapBatch ?f (fst acc) ?batch"
    have split: "drop i ids = ?batch @ drop (i + 5) ids"
      by (metis add.commute append_take_drop_id drop_drop)
    have "processBatchLoop H rsn ids i acc
        = processBatchLoop H rsn ids (i + 5) (snd ?br, fold aggregate (fst ?br) (snd acc))"
      using True
      by (subst processBatchLoop.simps) (simp add: Let_def slice_five)
    also have "\<dots> = (snd (mapBatch ?f (snd ?br) (drop (i + 5) ids)),
          fold aggregate (fst (mapBatch ?f (snd ?br) (drop (i + 5) ids)))
            (fold aggregate (fst ?br) (snd acc)))"
      using "1.IH" [OF refl True refl refl refl] by (simp add: slice_five)
    also have "\<dots> = (snd (mapBatch ?f (fst acc) (drop i ids)),
          fold aggregate (fst (mapBatch ?f (fst acc) (drop i ids))) (snd acc))"
      by (subst (3 4) split) (simp add: mapBatch_append)
    finally show ?thesis .
  next
    case False
    then show ?thesis by (subst processBatchLoop.simps) simp
  qed
qed

text \<open>
  Claim C5, as stated, fails: \<^verbatim>\<open>processBatch\<close> has no threshold. In the first sub-batch
  of five below, three documents fail (more than half); the two that succeed are counted as
  successes, and only the three failures are reported.
\<close>

theorem C5_majority_failure_not_escalated_counterexample:
  "snd (processBatch demoHandlers ''model_update'' D6 ())
     = \<lparr> successCount = 3, failureCount = 3,
         errors = [\<lparr> de_documentId = ''d1'', de_error = Some ''503'' \<rparr>,
                   \<lparr> de_documentId = ''d2'', de_error = Some ''503'' \<rparr>,
                   \<lparr> de_documentId = ''d3'', de_error = Some ''503'' \<rparr>] \<rparr>"
  by (simp add: processBatch_def processBatchLoop_eq aggregate_def D6_def demoHandlers_def
        processDocument_def caught_def Let_def)

text \<open>
  Claim C5, amended. During batch reprocessing every document is counted on its own,
  whatever share of its sub-batch failed: \<^verbatim>\<open>successCount\<close> is the number of documents whose
  processing succeeded, \<^verbatim>\<open>failureCount\<close> the number of those that failed, and
  \<^verbatim>\<open>errors\<close> lists exactly the failed ones, in order. All documents of all sub-batches are
  processed (one result per document id), so the two counts add up to the number of
  documents, and the overall result is a success only if no document failed.
\<close>

theorem C5_documents_counted_individually:
  "snd (processBatch H rsn ids w)
     = \<lparr> successCount = length (filter doc_success (fst (mapBatch (processDocument H rsn) w ids))),
         failureCount = length (filter (\<lambda>r. \<not> doc_success r)
                                   (fst (mapBatch (processDocument H rsn) w ids))),
         errors = map docErrorOf (filter (\<lambda>r. \<not> doc_success r)
                                   (fst (mapBatch (processDocument H rsn) w ids))) \<rparr>
   \<and> map doc_documentId (fst (mapBatch (processDocument H rsn) w ids)) = ids
   \<and> successCount (snd (processBatch H rsn ids w)) + failureCount (snd (processBatch H rsn ids w))
       = length ids
   \<and> success (fst (processBatchReprocess H rsn ids mid elapsed w))
       = (failureCount (snd (processBatch H rsn ids w)) = 0)"
proof -
  let ?rs = "fst (mapBatch (processDocument H rsn) w ids)"
  have a: "snd (processBatch H rsn ids w)
     = \<lparr> successCount = length (filter doc_success ?rs),
         failureCount = length (filter (\<lambda>r. \<not> doc_success r) ?rs),
         errors = map docErrorOf (filter (\<lambda>r. \<not> doc_success r) ?rs) \<rparr>"
    by (simp add: processBatch_def processBatchLoop_eq fold_aggregate)
  have b: "map doc_documentId ?rs = ids" by (rule mapBatch_ids)
  have c: "successCount (snd (processBatch H rsn ids w))
             + failureCount (snd (processBatch H rsn ids w)) = length ids"
    using sum_length_filter_compl [of doc_success ?rs] length_mapBatch [of "processDocument H rsn" w ids]
    by (simp add: a)
  have d: "success (fst (processBatchReprocess H rsn ids mid elapsed w))
       = (failureCount (snd (processBatch H rsn ids w)) = 0)"
    by (simp add: processBatchReprocess_def Let_def)
  show ?thesis using a b c d by blast
qed

theorem C5_documents_counted_individually_witness:
  "successCount (snd (processBatch demoHandlers ''model_update'' D6 ())) = 3
   \<and> failureCount (snd (processBatch demoHandlers ''model_update'' D6 ())) = 3
   \<and> map de_documentId (errors (snd (processBatch demoHandlers ''model_update'' D6 ())))
       = [''d1'', ''d2'', ''d3'']
   \<and> success (fst (processBatchReprocess demoHandlers ''model_update'' D6 ''m'' 1 ())) = False"
proof -
  have rs: "fst (mapBatch (processDocument demoHandlers ''model_update'') () D6)
      = [\<lparr> doc_documentId = ''d1'', doc_success = False, doc_error = Some ''503'' \<rparr>,
         \<lparr> doc_documentId = ''d2'', doc_success = False, doc_error = Some ''503'' \<rparr>,
         \<lparr> doc_documentId = ''d3'', doc_success = False, doc_error = Some ''503'' \<rparr>,
         \<lparr> doc_documentId = ''d4'', doc_success = True, doc_error = None \<rparr>,
         \<lparr> doc_documentId = ''d5'', doc_success = True, doc_error = None \<rparr>,
         \<lparr> doc_documentId = ''d6'', doc_success = True, doc_error = None \<rparr>]"
    by (simp add: D6_def demoHandlers_def processDocument_def caught_def Let_def)
  show ?thesis
    using C5_documents_counted_individually [of demoHandlers "''model_update''" D6 "()" "''m''" 1]
    by (simp add: rs docErrorOf_def)
qed

section \<open>Chunking\<close>













lemma chunkLoop_stuck_aux:
  assumes "chunkLoop words chunkSize overlap i chunks = Some r"
  shows "\<not> (chunkSize = overlap \<and> i < int (length words) \<and> i + chunkSize < int (length words))"
proof (rule chunkLoop.raw_induct
    [where P = "\<lambda>ws cs ov k chs y. \<not> (cs = ov \<and> k < int (length ws) \<and> k + cs < int (length ws))",
     OF _ assms])
  fix f :: "string list \<Rightarrow> int \<Rightarrow> int \<Rightarrow> int \<Rightarrow> string list \<Rightarrow> string list option"
  fix ws cs ov k chs y
  assume IH: "\<And>ws cs ov k chs y. f ws cs ov k chs = Some y
        \<Longrightarrow> \<not> (cs = ov \<and> k < int (length ws) \<and> k + cs < int (length ws))"
    and body: "(if k < int (length ws) then
       (let chunk = joinSpace (slice k (k + cs) ws);
            chunks' = chs @ [chunk]
        in if k + cs \<ge> int (length ws) then Some chunks'
           else f ws cs ov (k + (cs - ov)) chunks')
     else Some chs) = Some y"
  show "\<not> (cs = ov \<and> k < int (length ws) \<and> k + cs < int (length ws))"
  proof
    assume c: "cs = ov \<and> k < int (length ws) \<and> k + cs < int (length ws)"
    then have "f ws cs ov k (chs @ [joinSpace (slice k (k + cs) ws)]) = Some y"
      using body by (simp add: Let_def)
    then show False using IH c by blast
  qed
qed

text \<open>
  Without the hypothesis the loop need not end: with \<^verbatim>\<open>chunkSize = overlap\<close> the index
  stays where it is, and \<^verbatim>\<open>chunkText\<close> does not return on a text of two words.
\<close>

lemma chunkText_no_progress: "chunkText ''a b'' (Some 1) (Some 1) = None"
proof (cases "chunkText ''a b'' (Some 1) (Some 1)")
  case None
  then show ?thesis .
next
  case (Some r)
  then have "chunkLoop [''a'', ''b''] 1 1 0 [] = Some r"
    by (simp add: chunkText_def chunkSizeOf_def overlapOf_def Let_def isSpace_def)
  then show ?thesis using chunkLoop_stuck_aux [of "[''a'', ''b'']" 1 1 0 "[]" r] by simp
qed

end
